theory Spec2Isabelle
  imports Complex_Main
begin

section \<open>JavaScript values\<close>

text \<open>
  The viewer is one React component, \<^verbatim>\<open>App\<close>. Its state cell holds whatever
  \<^verbatim>\<open>response.json()\<close> resolved with, so the model works on untyped JavaScript values;
  the TypeScript annotation \<^verbatim>\<open>Well\<close> is erased at run time and appears below as the
  predicate \<open>well_shaped\<close>.

  A Number is kept as the mathematical value of its literal (a rational); the IEEE double
  the engine stores is the rounding of that value. Strings are Isabelle strings, hence
  sequences of code units below 256.
\<close>

datatype jsnumber = NaN | PosInfinity | NegInfinity | NegZero | Finite rat

datatype jsval =
    Undefined
  | Null
  | Bool bool
  | Num jsnumber
  | Str string
  | Arr "jsval list"
  | Obj "(string \<times> jsval) list"

datatype js_error = TypeError | SyntaxError

section \<open>\<^verbatim>\<open>Number(value)\<close>\<close>

subsection \<open>Strings: the StringNumericLiteral grammar\<close>

text \<open>
  \<^verbatim>\<open>Number\<close> applied to a string trims StrWhiteSpaceChar from both ends and reads what is
  left as a StrNumericLiteral; text outside the grammar gives \<^verbatim>\<open>NaN\<close>. Of the white space
  and line terminator code points, these seven lie below 256: TAB, LF, VT, FF, CR, SP, NBSP.
\<close>

definition StrWhiteSpaceChar :: "char \<Rightarrow> bool" where
  "StrWhiteSpaceChar c =
     (c \<in> set [CHR 0x09, CHR 0x0A, CHR 0x0B, CHR 0x0C, CHR 0x0D, CHR 0x20, CHR 0xA0])"

definition trim :: "string \<Rightarrow> string" where
  "trim s = rev (dropWhile StrWhiteSpaceChar (rev (dropWhile StrWhiteSpaceChar s)))"

definition digit_value :: "char \<Rightarrow> nat" where
  "digit_value c =
     (if c \<in> set ''0123456789'' then of_char c - 48
      else if c \<in> set ''abcdef'' then of_char c - 87
      else if c \<in> set ''ABCDEF'' then of_char c - 55
      else 0)"

definition DecimalDigit :: "char \<Rightarrow> bool" where
  "DecimalDigit c = (c \<in> set ''0123456789'')"

definition HexDigit :: "char \<Rightarrow> bool" where
  "HexDigit c = (c \<in> set ''0123456789abcdefABCDEF'')"

definition OctalDigit :: "char \<Rightarrow> bool" where
  "OctalDigit c = (c \<in> set ''01234567'')"

definition BinaryDigit :: "char \<Rightarrow> bool" where
  "BinaryDigit c = (c \<in> set ''01'')"

definition MV :: "nat \<Rightarrow> string \<Rightarrow> nat" where
  \<comment> \<open>the mathematical value of a digit sequence in the given radix\<close>
  "MV radix ds = foldl (\<lambda>a c. a * radix + digit_value c) 0 ds"

definition DecimalDigits :: "string \<Rightarrow> int option" where
  "DecimalDigits s = (if s \<noteq> [] \<and> list_all DecimalDigit s then Some (int (MV 10 s)) else None)"

definition SignedInteger :: "string \<Rightarrow> int option" where
  "SignedInteger s =
     (case s of
        [] \<Rightarrow> None
      | c # r \<Rightarrow>
          if c = CHR ''+'' then DecimalDigits r
          else if c = CHR ''-'' then map_option uminus (DecimalDigits r)
          else DecimalDigits s)"

definition ExponentPart :: "string \<Rightarrow> int option" where
  \<comment> \<open>what follows the mantissa: nothing, or an ExponentIndicator and a SignedInteger\<close>
  "ExponentPart s =
     (case s of
        [] \<Rightarrow> Some 0
      | c # r \<Rightarrow> if c = CHR ''e'' \<or> c = CHR ''E'' then SignedInteger r else None)"

definition scale10 :: "nat \<Rightarrow> int \<Rightarrow> rat" where
  "scale10 m e = (if 0 \<le> e then of_nat m * 10 ^ nat e else of_nat m / 10 ^ nat (- e))"

definition StrUnsignedDecimalLiteral :: "string \<Rightarrow> jsnumber option" where
  "StrUnsignedDecimalLiteral s =
     (if s = ''Infinity'' then Some PosInfinity
      else
        let ip = takeWhile DecimalDigit s;
            r1 = dropWhile DecimalDigit s;
            fp = (case r1 of [] \<Rightarrow> [] | c # r \<Rightarrow> if c = CHR ''.'' then takeWhile DecimalDigit r else []);
            r2 = (case r1 of [] \<Rightarrow> [] | c # r \<Rightarrow> if c = CHR ''.'' then dropWhile DecimalDigit r else r1)
        in if ip = [] \<and> fp = [] then None
           else case ExponentPart r2 of
                  None \<Rightarrow> None
                | Some e \<Rightarrow> Some (Finite (scale10 (MV 10 (ip @ fp)) (e - int (length fp)))))"

definition negate :: "jsnumber \<Rightarrow> jsnumber" where
  \<comment> \<open>the value of \<^verbatim>\<open>- StrUnsignedDecimalLiteral\<close>: a zero becomes the negative zero\<close>
  "negate n =
     (case n of
        PosInfinity \<Rightarrow> NegInfinity
      | Finite q \<Rightarrow> if q = 0 then NegZero else Finite (- q)
      | other \<Rightarrow> other)"

definition StrDecimalLiteral :: "string \<Rightarrow> jsnumber option" where
  "StrDecimalLiteral s =
     (case s of
        [] \<Rightarrow> None
      | c # r \<Rightarrow>
          if c = CHR ''+'' then StrUnsignedDecimalLiteral r
          else if c = CHR ''-'' then map_option negate (StrUnsignedDecimalLiteral r)
          else StrUnsignedDecimalLiteral s)"

definition radix_digits :: "nat \<Rightarrow> (char \<Rightarrow> bool) \<Rightarrow> string \<Rightarrow> jsnumber option" where
  "radix_digits radix ok ds =
     (if ds \<noteq> [] \<and> list_all ok ds then Some (Finite (of_nat (MV radix ds))) else None)"

definition NonDecimalIntegerLiteral :: "string \<Rightarrow> jsnumber option" where
  "NonDecimalIntegerLiteral s =
     (case s of
        z # p # ds \<Rightarrow>
          if z \<noteq> CHR ''0'' then None
          else if p = CHR ''b'' \<or> p = CHR ''B'' then radix_digits 2 BinaryDigit ds
          else if p = CHR ''o'' \<or> p = CHR ''O'' then radix_digits 8 OctalDigit ds
          else if p = CHR ''x'' \<or> p = CHR ''X'' then radix_digits 16 HexDigit ds
          else None
      | _ \<Rightarrow> None)"

definition StrNumericLiteral :: "string \<Rightarrow> jsnumber option" where
  "StrNumericLiteral s =
     (case StrDecimalLiteral s of
        Some n \<Rightarrow> Some n
      | None \<Rightarrow> NonDecimalIntegerLiteral s)"

definition StringToNumber :: "string \<Rightarrow> jsnumber" where
  "StringToNumber str =
     (let literal = trim str
      in if literal = [] then Finite 0
         else case StrNumericLiteral literal of None \<Rightarrow> NaN | Some n \<Rightarrow> n)"

subsection \<open>Other values\<close>

text \<open>
  An object or array is first converted to a primitive. The objects at hand come out of
  \<^verbatim>\<open>JSON.parse\<close>, so their own properties are never callable: an own \<^verbatim>\<open>toString\<close> property
  hides \<^verbatim>\<open>Object.prototype.toString\<close> and the conversion raises a TypeError; otherwise a
  plain object converts to \<^verbatim>\<open>[object Object]\<close>. An array converts to its elements' strings
  joined by commas, \<^verbatim>\<open>null\<close> and \<^verbatim>\<open>undefined\<close> elements giving the empty string.
\<close>

fun ToString_throws :: "jsval \<Rightarrow> bool" where
  "ToString_throws (Obj kvs) = (''toString'' \<in> set (map fst kvs))"
| "ToString_throws (Arr xs) = list_ex ToString_throws xs"
| "ToString_throws _ = False"

text \<open>
  The number read back from an array's string. Two or more elements put a comma into the
  string, which no StrNumericLiteral contains. For a single Number element the string is
  that of the number, and reading it back returns the number, except that the negative
  zero prints as \<^verbatim>\<open>0\<close>.
\<close>

fun array_number :: "jsval list \<Rightarrow> jsnumber" where
  "array_number [] = Finite 0"
| "array_number [Undefined] = Finite 0"
| "array_number [Null] = Finite 0"
| "array_number [Bool b] = NaN"
| "array_number [Num n] = (if n = NegZero then Finite 0 else n)"
| "array_number [Str s] = StringToNumber s"
| "array_number [Arr ys] = array_number ys"
| "array_number [Obj kvs] = NaN"
| "array_number (x # y # zs) = NaN"

fun ToNumber :: "jsval \<Rightarrow> js_error + jsnumber" where
  "ToNumber Undefined = Inr NaN"
| "ToNumber Null = Inr (Finite 0)"
| "ToNumber (Bool b) = Inr (if b then Finite 1 else Finite 0)"
| "ToNumber (Num n) = Inr n"
| "ToNumber (Str s) = Inr (StringToNumber s)"
| "ToNumber (Arr xs) = (if ToString_throws (Arr xs) then Inl TypeError else Inr (array_number xs))"
| "ToNumber (Obj kvs) = (if ToString_throws (Obj kvs) then Inl TypeError else Inr NaN)"

definition Number :: "jsval \<Rightarrow> js_error + jsnumber" where
  "Number v = ToNumber v"

section \<open>Property reads and \<^verbatim>\<open>??\<close>\<close>

text \<open>
  \<open>Get v k\<close> is \<^verbatim>\<open>v.k\<close> for a value other than \<^verbatim>\<open>null\<close> and \<^verbatim>\<open>undefined\<close> (on those the read
  raises, see \<open>Marker\<close>) and a name that no prototype defines, as is the case for the ten
  upper-case names \<^verbatim>\<open>App\<close> reads: an object yields its own property or \<^verbatim>\<open>undefined\<close>, every
  other value \<^verbatim>\<open>undefined\<close>.
\<close>

fun Get :: "jsval \<Rightarrow> string \<Rightarrow> jsval" where
  "Get (Obj kvs) k = (case map_of kvs k of None \<Rightarrow> Undefined | Some v \<Rightarrow> v)"
| "Get _ k = Undefined"

definition nullish :: "jsval \<Rightarrow> jsval \<Rightarrow> jsval" where
  \<comment> \<open>\<^verbatim>\<open>a ?? b\<close>\<close>
  "nullish a b = (if a = Undefined \<or> a = Null then b else a)"

section \<open>Map View: what \<^verbatim>\<open>App\<close> renders\<close>

text \<open>
  A React child is an element or a value. The JSX text between \<^verbatim>\<open></strong>\<close> and the
  expression on the same line, and the expression \<^verbatim>\<open>{" "}\<close>, are both the string child of one
  space; white space that contains a line break is dropped.
\<close>

datatype node = Element string "node list" | Value jsval

definition strong :: "string \<Rightarrow> node" where
  "strong label = Element ''strong'' [Value (Str label)]"

definition br :: node where
  "br = Element ''br'' []"

definition space :: node where
  "space = Value (Str '' '')"

record marker =
  key :: nat
  position :: "jsnumber \<times> jsnumber"
  popup :: "node list"

definition Popup :: "jsval \<Rightarrow> node list" where
  \<comment> \<open>the children of the \<^verbatim>\<open>div\<close> inside \<^verbatim>\<open>Popup\<close>\<close>
  "Popup well =
     [strong ''Well Name:'', space, Value (nullish (Get well ''WELL_NAME'') (Str ''Unknown'')),
      br,
      strong ''Status:'', space, Value (nullish (Get well ''WELL_STATUS'') (Str ''Unknown'')),
      br,
      strong ''Type:'', space, Value (nullish (Get well ''WELL_TYPE'') (Str ''Unknown'')),
      br,
      strong ''API No:'', space, Value (nullish (Get well ''API_NO'') (Str ''Unknown'')),
      br,
      strong ''Operator:'', space, Value (nullish (Get well ''OPERATOR'') (Str ''Unknown'')),
      br,
      strong ''Closest City:'', space,
      Value (nullish (Get well ''CLOSEST_CITY'') (Str ''Unknown'')),
      br,
      strong ''Oil Produced:'', space,
      Value (nullish (Get well ''OIL_PRODUCED'') (Str ''Unknown'')),
      br,
      strong ''Gas Produced:'', space,
      Value (nullish (Get well ''GAS_PRODUCED'') (Str ''Unknown''))]"

text \<open>
  The callback of \<^verbatim>\<open>wells.map\<close>. Its first step reads \<^verbatim>\<open>well.LATITUDE\<close>, which raises a
  TypeError when \<^verbatim>\<open>well\<close> is \<^verbatim>\<open>null\<close> or \<^verbatim>\<open>undefined\<close>.
\<close>

definition Marker :: "jsval \<Rightarrow> nat \<Rightarrow> js_error + marker" where
  "Marker well index =
     (if well = Null \<or> well = Undefined then Inl TypeError
      else case Number (Get well ''LATITUDE'') of
             Inl e \<Rightarrow> Inl e
           | Inr lat \<Rightarrow>
               (case Number (Get well ''LONGITUDE'') of
                  Inl e \<Rightarrow> Inl e
                | Inr lng \<Rightarrow> Inr \<lparr>key = index, position = (lat, lng), popup = Popup well\<rparr>))"

fun array_map :: "(jsval \<Rightarrow> nat \<Rightarrow> js_error + 'a) \<Rightarrow> jsval list \<Rightarrow> nat \<Rightarrow> js_error + 'a list" where
  \<comment> \<open>\<^verbatim>\<open>Array.prototype.map\<close> from index \<open>i\<close> on; the first exception ends it\<close>
  "array_map f [] i = Inr []"
| "array_map f (x # xs) i =
     (case f x i of
        Inl e \<Rightarrow> Inl e
      | Inr y \<Rightarrow> (case array_map f xs (Suc i) of Inl e \<Rightarrow> Inl e | Inr ys \<Rightarrow> Inr (y # ys)))"

text \<open>
  \<^verbatim>\<open>wells.map(...)\<close>: only an array has a \<^verbatim>\<open>map\<close> method. On \<^verbatim>\<open>null\<close> the property read
  raises; on a string, number or boolean the read gives \<^verbatim>\<open>undefined\<close>, and on a parsed
  object at most a value that is not callable, so the call raises. All are TypeErrors.
\<close>

definition markers :: "jsval \<Rightarrow> js_error + marker list" where
  "markers ws = (case ws of Arr xs \<Rightarrow> array_map Marker xs 0 | _ \<Rightarrow> Inl TypeError)"

section \<open>View Model: the reducer behind \<^verbatim>\<open>useImmerReducer\<close>\<close>

record action =
  type :: string
  payload :: jsval

text \<open>
  The recipe handed to \<^verbatim>\<open>useImmerReducer\<close>. The \<^verbatim>\<open>default: break\<close> branch falls off the
  end of the arrow function, which then returns \<^verbatim>\<open>undefined\<close>.
\<close>

definition reducer :: "jsval \<Rightarrow> action \<Rightarrow> jsval" where
  "reducer draft a = (if type a = ''SET_WELLS'' then payload a else Undefined)"

text \<open>
  Immer's \<^verbatim>\<open>produce\<close> for a recipe that never writes to its draft: a result other than
  \<^verbatim>\<open>undefined\<close> replaces the base state, \<^verbatim>\<open>undefined\<close> keeps it.
\<close>

definition produce :: "jsval \<Rightarrow> (jsval \<Rightarrow> jsval) \<Rightarrow> jsval" where
  "produce base recipe = (let result = recipe base in if result = Undefined then base else result)"

datatype console_entry =
    Log string "jsval list"
  | Error string js_error

text \<open>
  What the component can change: the state cell of \<^verbatim>\<open>useImmerReducer\<close>, the actions handed
  to \<^verbatim>\<open>dispatch\<close> so far, and the console.
\<close>

record app_state =
  wells :: jsval
  dispatched :: "action list"
  console :: "console_entry list"

definition initial_state :: app_state where
  "initial_state = \<lparr>wells = Arr [], dispatched = [], console = []\<rparr>"

definition dispatch :: "action \<Rightarrow> app_state \<Rightarrow> app_state" where
  "dispatch a st =
     st\<lparr>wells := produce (wells st) (\<lambda>draft. reducer draft a), dispatched := dispatched st @ [a]\<rparr>"

definition SET_WELLS :: "jsval \<Rightarrow> action" where
  "SET_WELLS data = \<lparr>type = ''SET_WELLS'', payload = data\<rparr>"

section \<open>The component\<close>

definition console_log :: "string \<Rightarrow> jsval list \<Rightarrow> app_state \<Rightarrow> app_state" where
  "console_log msg args st = st\<lparr>console := console st @ [Log msg args]\<rparr>"

definition console_error :: "string \<Rightarrow> js_error \<Rightarrow> app_state \<Rightarrow> app_state" where
  "console_error msg e st = st\<lparr>console := console st @ [Error msg e]\<rparr>"

text \<open>
  One call of the function \<^verbatim>\<open>App\<close>: it logs, then builds the markers from the state cell.
  The basemap around them is constant and left out.
\<close>

definition App :: "app_state \<Rightarrow> (js_error + marker list) \<times> app_state" where
  "App st = (let st1 = console_log ''App component rendered'' [] st in (markers (wells st1), st1))"

section \<open>Data Loader: the effect\<close>

text \<open>
  \<^verbatim>\<open>fetch\<close> rejects on a network error and resolves with a response for every HTTP status.
  \<^verbatim>\<open>response.json()\<close> rejects when the body is not JSON and resolves with the parsed value
  otherwise; a parsed value is never \<^verbatim>\<open>undefined\<close>.
\<close>

record response =
  status :: nat
  json :: "js_error + jsval"

type_synonym fetched = "js_error + response"

text \<open>
  The promise chain of the effect, run to its end for a given outcome of \<^verbatim>\<open>fetch\<close>:
  \<^verbatim>\<open>.then(response => response.json())\<close>, then the callback that logs and dispatches, and
  \<^verbatim>\<open>.catch\<close> for a rejection of any earlier link.
\<close>

definition useEffect :: "fetched \<Rightarrow> app_state \<Rightarrow> app_state" where
  "useEffect outcome st =
     (let st1 = console_log ''Fetching wells data...'' [] st;
          parsed = (case outcome of Inl e \<Rightarrow> Inl e | Inr response \<Rightarrow> json response)
      in case parsed of
           Inr data \<Rightarrow> dispatch (SET_WELLS data) (console_log ''Wells data received:'' [data] st1)
         | Inl error \<Rightarrow> console_error ''Error fetching wells data:'' error st1)"

section \<open>Well-shaped records\<close>

text \<open>The TypeScript type \<^verbatim>\<open>Well\<close>: two coordinate strings and eight optional strings.\<close>

fun is_Str :: "jsval \<Rightarrow> bool" where
  "is_Str (Str s) = True"
| "is_Str _ = False"

fun is_Obj :: "jsval \<Rightarrow> bool" where
  "is_Obj (Obj kvs) = True"
| "is_Obj _ = False"

fun is_Arr :: "jsval \<Rightarrow> bool" where
  "is_Arr (Arr xs) = True"
| "is_Arr _ = False"

definition optional_fields :: "string list" where
  "optional_fields =
     [''WELL_NAME'', ''WELL_STATUS'', ''WELL_TYPE'', ''API_NO'', ''OPERATOR'', ''CLOSEST_CITY'',
      ''OIL_PRODUCED'', ''GAS_PRODUCED'']"

fun well_shaped :: "jsval \<Rightarrow> bool" where
  "well_shaped (Obj kvs) =
     ((case map_of kvs ''LATITUDE'' of None \<Rightarrow> False | Some v \<Rightarrow> is_Str v)
      \<and> (case map_of kvs ''LONGITUDE'' of None \<Rightarrow> False | Some v \<Rightarrow> is_Str v)
      \<and> list_all (\<lambda>k. case map_of kvs k of None \<Rightarrow> True | Some v \<Rightarrow> is_Str v) optional_fields)"
| "well_shaped _ = False"

section \<open>Reading a popup\<close>

text \<open>The children of the popup, cut at each \<^verbatim>\<open><br />\<close>: the lines a reader sees.\<close>

fun split_br :: "node list \<Rightarrow> node list \<Rightarrow> node list list" where
  "split_br line [] = [line]"
| "split_br line (n # ns) = (if n = br then line # split_br [] ns else split_br (line @ [n]) ns)"

definition lines :: "node list \<Rightarrow> node list list" where
  "lines ns = split_br [] ns"

text \<open>
  The eight display fields in the order of the popup, each with its label, and the line
  expected for a field of a parsed object: the label, a space, and the field's value when
  the object has the field, \<^verbatim>\<open>Unknown\<close> when it has not.
\<close>

definition display_fields :: "(string \<times> string) list" where
  "display_fields =
     [(''Well Name:'', ''WELL_NAME''), (''Status:'', ''WELL_STATUS''), (''Type:'', ''WELL_TYPE''),
      (''API No:'', ''API_NO''), (''Operator:'', ''OPERATOR''), (''Closest City:'', ''CLOSEST_CITY''),
      (''Oil Produced:'', ''OIL_PRODUCED''), (''Gas Produced:'', ''GAS_PRODUCED'')]"

definition field_line :: "(string \<times> jsval) list \<Rightarrow> string \<times> string \<Rightarrow> node list" where
  "field_line kvs f =
     [strong (fst f), space,
      Value (case map_of kvs (snd f) of None \<Rightarrow> Str ''Unknown'' | Some v \<Rightarrow> v)]"

definition blank :: "string \<Rightarrow> bool" where
  \<comment> \<open>empty, or white space only\<close>
  "blank s = list_all StrWhiteSpaceChar s"

section \<open>The StringNumericLiteral grammar, production by production\<close>

text \<open>
  The same grammar written as the language it generates, without reference to how
  \<open>StringToNumber\<close> reads a string: a numeric string is optional white space, an
  optional StrNumericLiteral, optional white space.
\<close>

definition opt :: "(string \<Rightarrow> bool) \<Rightarrow> string \<Rightarrow> bool" where
  "opt P s = (s = [] \<or> P s)"

definition is_DecimalDigits :: "string \<Rightarrow> bool" where
  "is_DecimalDigits ds = (ds \<noteq> [] \<and> list_all DecimalDigit ds)"

definition is_sign :: "string \<Rightarrow> bool" where
  "is_sign sg = (sg = ''+'' \<or> sg = ''-'')"

definition is_ExponentPart :: "string \<Rightarrow> bool" where
  "is_ExponentPart x =
     (\<exists>i sg ds. x = i # sg @ ds \<and> (i = CHR ''e'' \<or> i = CHR ''E'') \<and> opt is_sign sg
        \<and> is_DecimalDigits ds)"

definition is_StrUnsignedDecimalLiteral :: "string \<Rightarrow> bool" where
  "is_StrUnsignedDecimalLiteral u =
     (u = ''Infinity''
      \<or> (\<exists>a b x. u = a @ ''.'' @ b @ x \<and> is_DecimalDigits a \<and> opt is_DecimalDigits b
            \<and> opt is_ExponentPart x)
      \<or> (\<exists>b x. u = ''.'' @ b @ x \<and> is_DecimalDigits b \<and> opt is_ExponentPart x)
      \<or> (\<exists>a x. u = a @ x \<and> is_DecimalDigits a \<and> opt is_ExponentPart x))"

definition is_StrDecimalLiteral :: "string \<Rightarrow> bool" where
  "is_StrDecimalLiteral d = (\<exists>sg u. d = sg @ u \<and> opt is_sign sg \<and> is_StrUnsignedDecimalLiteral u)"

definition is_NonDecimalIntegerLiteral :: "string \<Rightarrow> bool" where
  "is_NonDecimalIntegerLiteral n =
     (\<exists>p ds. n = CHR ''0'' # p # ds \<and> ds \<noteq> []
        \<and> ((p = CHR ''b'' \<or> p = CHR ''B'') \<and> list_all BinaryDigit ds
           \<or> (p = CHR ''o'' \<or> p = CHR ''O'') \<and> list_all OctalDigit ds
           \<or> (p = CHR ''x'' \<or> p = CHR ''X'') \<and> list_all HexDigit ds))"

definition is_StrNumericLiteral :: "string \<Rightarrow> bool" where
  "is_StrNumericLiteral l = (is_StrDecimalLiteral l \<or> is_NonDecimalIntegerLiteral l)"

definition is_StringNumericLiteral :: "string \<Rightarrow> bool" where
  "is_StringNumericLiteral s =
     (\<exists>pre l post. s = pre @ l @ post \<and> list_all StrWhiteSpaceChar pre
        \<and> list_all StrWhiteSpaceChar post \<and> opt is_StrNumericLiteral l)"

definition black :: "string \<Rightarrow> bool" where
  \<comment> \<open>free of white space\<close>
  "black s = (\<forall>c\<in>set s. \<not> StrWhiteSpaceChar c)"

section \<open>Sample data\<close>

definition well_A :: jsval where
  "well_A =
     Obj [(''LATITUDE'', Str ''48.21''), (''LONGITUDE'', Str ''-103.6''), (''WELL_NAME'', Str ''Well A'')]"

definition well_B :: jsval where
  "well_B =
     Obj [(''LATITUDE'', Str ''not-a-number''), (''LONGITUDE'', Str '' ''),
          (''OPERATOR'', Str ''Acme Oil''), (''GAS_PRODUCED'', Str ''12'')]"

definition ok_response :: "jsval \<Rightarrow> response" where
  "ok_response body = \<lparr>status = 200, json = Inr body\<rparr>"

section \<open>Properties of the View Model\<close>

lemma wells_dispatch_SET_WELLS:
  "p \<noteq> Undefined \<Longrightarrow> wells (dispatch (SET_WELLS p) st) = p"
  by (simp add: dispatch_def SET_WELLS_def reducer_def produce_def)

lemma console_dispatch: "console (dispatch a st) = console st"
  by (simp add: dispatch_def)

text \<open>
  Claim C2. Whatever the prior state, dispatching \<^verbatim>\<open>SET_WELLS\<close> with a sequence as payload
  leaves exactly that sequence in the state cell; the state cell starts as the empty
  sequence.
\<close>

theorem SET_WELLS_replaces:
  "wells (dispatch (SET_WELLS (Arr ws)) st) = Arr ws \<and> wells initial_state = Arr []"
  by (simp add: wells_dispatch_SET_WELLS initial_state_def)

text \<open>
  Claim C7. An action whose type is not \<^verbatim>\<open>SET_WELLS\<close> takes the default branch: the
  recipe returns \<^verbatim>\<open>undefined\<close>, Immer keeps the base state, and the state cell after the
  dispatch is the one before.
\<close>

theorem unrecognized_action_noop:
  "type a \<noteq> ''SET_WELLS'' \<Longrightarrow>
     produce s (\<lambda>draft. reducer draft a) = s \<and> wells (dispatch a st) = wells st"
  by (simp add: dispatch_def reducer_def produce_def)

theorem unrecognized_action_noop_witness:
  "type \<lparr>type = ''RESET'', payload = Arr [Null]\<rparr> \<noteq> ''SET_WELLS''
   \<and> produce (Arr [Str ''w'']) (\<lambda>draft. reducer draft \<lparr>type = ''RESET'', payload = Arr [Null]\<rparr>)
       = Arr [Str ''w'']
   \<and> wells (dispatch \<lparr>type = ''RESET'', payload = Arr [Null]\<rparr> initial_state) = Arr []"
  using unrecognized_action_noop
    [of "\<lparr>type = ''RESET'', payload = Arr [Null]\<rparr>" "Arr [Str ''w'']" initial_state]
  by (simp add: initial_state_def)

section \<open>Properties of the Data Loader\<close>

lemma useEffect_rejected:
  "useEffect (Inl e) st =
     st\<lparr>console := console st @ [Log ''Fetching wells data...'' [], Error ''Error fetching wells data:'' e]\<rparr>"
  by (simp add: useEffect_def console_log_def console_error_def)

lemma useEffect_not_json:
  "json r = Inl e \<Longrightarrow>
   useEffect (Inr r) st =
     st\<lparr>console := console st @ [Log ''Fetching wells data...'' [], Error ''Error fetching wells data:'' e]\<rparr>"
  by (simp add: useEffect_def console_log_def console_error_def)

lemma useEffect_json:
  "json r = Inr data \<Longrightarrow>
   useEffect (Inr r) st =
     dispatch (SET_WELLS data)
       (st\<lparr>console := console st @ [Log ''Fetching wells data...'' [], Log ''Wells data received:'' [data]]\<rparr>)"
  by (simp add: useEffect_def console_log_def console_error_def)

text \<open>
  Claim C4. When the fetch fails, by a network error or by a body that is not JSON, the
  error is written to the console, the state cell keeps its prior value, and no action is
  dispatched.
\<close>

theorem failed_fetch_logged_state_kept:
  "outcome = Inl e \<or> (\<exists>r. outcome = Inr r \<and> json r = Inl e) \<Longrightarrow>
     wells (useEffect outcome st) = wells st
     \<and> dispatched (useEffect outcome st) = dispatched st
     \<and> console (useEffect outcome st)
         = console st @ [Log ''Fetching wells data...'' [], Error ''Error fetching wells data:'' e]"
  by (auto simp: useEffect_rejected useEffect_not_json)

theorem failed_fetch_logged_state_kept_witness:
  "wells (useEffect (Inl TypeError) initial_state) = Arr []
   \<and> dispatched (useEffect (Inl TypeError) initial_state) = []
   \<and> console (useEffect (Inl TypeError) initial_state)
       = [Log ''Fetching wells data...'' [], Error ''Error fetching wells data:'' TypeError]
   \<and> wells (useEffect (Inr \<lparr>status = 200, json = Inl SyntaxError\<rparr>) initial_state) = Arr []
   \<and> dispatched (useEffect (Inr \<lparr>status = 200, json = Inl SyntaxError\<rparr>) initial_state) = []
   \<and> console (useEffect (Inr \<lparr>status = 200, json = Inl SyntaxError\<rparr>) initial_state)
       = [Log ''Fetching wells data...'' [], Error ''Error fetching wells data:'' SyntaxError]"
  using failed_fetch_logged_state_kept [of "Inl TypeError" TypeError initial_state]
    failed_fetch_logged_state_kept
      [of "Inr \<lparr>status = 200, json = Inl SyntaxError\<rparr>" SyntaxError initial_state]
  by (simp add: initial_state_def)

text \<open>
  Claim C5 says that a response with a status other than 200 is a Loader failure. The
  effect never looks at the status: a 500 response that carries a JSON error object is
  logged as received data and dispatched, and no error is logged.
\<close>

theorem error_status_dispatched:
  "status \<lparr>status = 500, json = Inr (Obj [(''error'', Str ''Internal Server Error'')])\<rparr> \<noteq> 200
   \<and> useEffect (Inr \<lparr>status = 500, json = Inr (Obj [(''error'', Str ''Internal Server Error'')])\<rparr>)
        initial_state
      = \<lparr>wells = Obj [(''error'', Str ''Internal Server Error'')],
         dispatched = [SET_WELLS (Obj [(''error'', Str ''Internal Server Error'')])],
         console = [Log ''Fetching wells data...'' [],
                    Log ''Wells data received:'' [Obj [(''error'', Str ''Internal Server Error'')]]]\<rparr>"
  by (simp add: useEffect_def console_log_def console_error_def dispatch_def SET_WELLS_def reducer_def produce_def initial_state_def)

lemma dispatched_dispatch: "dispatched (dispatch a st) = dispatched st @ [a]"
  by (simp add: dispatch_def)

text \<open>
  Claim C5, amended. The outcome of the effect does not depend on the status code of the
  response. A body that is not JSON is a failure: logged, nothing dispatched, state kept.
  A body that is JSON is a successful load for every status code: it is logged as
  received, dispatched, and becomes the state.
\<close>

theorem status_not_inspected:
  "useEffect (Inr (r\<lparr>status := n\<rparr>)) st = useEffect (Inr r) st
   \<and> (json r = Inl e \<longrightarrow>
        wells (useEffect (Inr r) st) = wells st
        \<and> dispatched (useEffect (Inr r) st) = dispatched st
        \<and> console (useEffect (Inr r) st)
            = console st @ [Log ''Fetching wells data...'' [], Error ''Error fetching wells data:'' e])
   \<and> (json r = Inr data \<longrightarrow>
        dispatched (useEffect (Inr r) st) = dispatched st @ [SET_WELLS data]
        \<and> console (useEffect (Inr r) st)
            = console st @ [Log ''Fetching wells data...'' [], Log ''Wells data received:'' [data]]
        \<and> (data \<noteq> Undefined \<longrightarrow> wells (useEffect (Inr r) st) = data))"
proof (intro conjI impI)
  show "useEffect (Inr (r\<lparr>status := n\<rparr>)) st = useEffect (Inr r) st"
    by (simp add: useEffect_def)
next
  assume "json r = Inl e"
  then show "wells (useEffect (Inr r) st) = wells st"
    and "dispatched (useEffect (Inr r) st) = dispatched st"
    and "console (useEffect (Inr r) st)
           = console st @ [Log ''Fetching wells data...'' [], Error ''Error fetching wells data:'' e]"
    by (simp_all add: useEffect_not_json)
next
  assume j: "json r = Inr data"
  show "dispatched (useEffect (Inr r) st) = dispatched st @ [SET_WELLS data]"
    by (simp add: useEffect_json [OF j] dispatched_dispatch)
  show "console (useEffect (Inr r) st)
          = console st @ [Log ''Fetching wells data...'' [], Log ''Wells data received:'' [data]]"
    by (simp add: useEffect_json [OF j] console_dispatch)
  assume "data \<noteq> Undefined"
  then show "wells (useEffect (Inr r) st) = data"
    by (simp add: useEffect_json [OF j] wells_dispatch_SET_WELLS)
qed

theorem status_not_inspected_witness:
  "useEffect (Inr (\<lparr>status = 200, json = Inr (Arr [])\<rparr>\<lparr>status := 404\<rparr>)) initial_state
     = useEffect (Inr \<lparr>status = 200, json = Inr (Arr [])\<rparr>) initial_state
   \<and> wells (useEffect (Inr \<lparr>status = 404, json = Inl SyntaxError\<rparr>) initial_state) = Arr []
   \<and> dispatched (useEffect (Inr \<lparr>status = 404, json = Inl SyntaxError\<rparr>) initial_state) = []
   \<and> console (useEffect (Inr \<lparr>status = 404, json = Inl SyntaxError\<rparr>) initial_state)
       = [Log ''Fetching wells data...'' [], Error ''Error fetching wells data:'' SyntaxError]
   \<and> dispatched (useEffect (Inr \<lparr>status = 404, json = Inr (Arr [Null])\<rparr>) initial_state)
       = [SET_WELLS (Arr [Null])]
   \<and> console (useEffect (Inr \<lparr>status = 404, json = Inr (Arr [Null])\<rparr>) initial_state)
       = [Log ''Fetching wells data...'' [], Log ''Wells data received:'' [Arr [Null]]]
   \<and> wells (useEffect (Inr \<lparr>status = 404, json = Inr (Arr [Null])\<rparr>) initial_state) = Arr [Null]"
  using status_not_inspected
      [where r = "\<lparr>status = 200, json = Inr (Arr [])\<rparr>" and n = 404 and st = initial_state
         and e = SyntaxError and data = "Arr []"]
    status_not_inspected
      [where r = "\<lparr>status = 404, json = Inl SyntaxError\<rparr>" and n = 404 and st = initial_state
         and e = SyntaxError and data = "Arr []"]
    status_not_inspected
      [where r = "\<lparr>status = 404, json = Inr (Arr [Null])\<rparr>" and n = 404 and st = initial_state
         and e = SyntaxError and data = "Arr [Null]"]
  by (simp add: initial_state_def)

section \<open>Properties of the Map View\<close>

lemmas StringToNumber_defs =
  StringToNumber_def trim_def StrWhiteSpaceChar_def StrNumericLiteral_def StrDecimalLiteral_def
  StrUnsignedDecimalLiteral_def NonDecimalIntegerLiteral_def radix_digits_def DecimalDigit_def
  HexDigit_def OctalDigit_def BinaryDigit_def ExponentPart_def SignedInteger_def
  DecimalDigits_def MV_def digit_value_def scale10_def negate_def

lemma StringToNumber_samples:
  "StringToNumber ''48.21'' = Finite (4821 / 100)"
  "StringToNumber ''-103.6'' = Finite (- 1036 / 10)"
  "StringToNumber ''not-a-number'' = NaN"
  "StringToNumber '' '' = Finite 0"
  "StringToNumber [] = Finite 0"
  by (simp_all add: StringToNumber_defs)

lemma Marker_well_A:
  "Marker well_A i
     = Inr \<lparr>key = i, position = (Finite (4821 / 100), Finite (- 1036 / 10)), popup = Popup well_A\<rparr>"
  by (simp add: Marker_def Number_def well_A_def StringToNumber_samples)

lemma Marker_well_B:
  "Marker well_B i = Inr \<lparr>key = i, position = (NaN, Finite 0), popup = Popup well_B\<rparr>"
  by (simp add: Marker_def Number_def well_B_def StringToNumber_samples)

lemma well_shaped_samples: "well_shaped well_A" "well_shaped well_B"
  by (simp_all add: well_A_def well_B_def optional_fields_def)

lemma all_less_Suc: "(\<forall>j<Suc n. P j) \<longleftrightarrow> P 0 \<and> (\<forall>j<n. P (Suc j))"
  by (auto simp: less_Suc_eq_0_disj)

lemma array_map_Inr_iff:
  "array_map f xs i = Inr ys \<longleftrightarrow>
     length ys = length xs \<and> (\<forall>j<length xs. f (xs ! j) (i + j) = Inr (ys ! j))"
proof (induction xs arbitrary: i ys)
  case Nil
  show ?case by auto
next
  case (Cons x xs)
  show ?case
  proof (cases ys)
    case Nil
    then show ?thesis by (simp split: sum.splits)
  next
    case (Cons y ys')
    have "array_map f (x # xs) i = Inr (y # ys') \<longleftrightarrow>
            f x i = Inr y \<and> array_map f xs (Suc i) = Inr ys'"
      by (auto split: sum.splits)
    also have "\<dots> \<longleftrightarrow> f x i = Inr y \<and> length ys' = length xs
                      \<and> (\<forall>j<length xs. f (xs ! j) (Suc i + j) = Inr (ys' ! j))"
      by (simp only: Cons.IH)
    finally show ?thesis
      unfolding Cons by (auto simp: all_less_Suc)
  qed
qed

lemma is_Str_iff: "is_Str v \<longleftrightarrow> (\<exists>s. v = Str s)"
  by (cases v) simp_all

lemma is_Arr_iff: "is_Arr v \<longleftrightarrow> (\<exists>xs. v = Arr xs)"
  by (cases v) simp_all

lemma is_Obj_iff: "is_Obj v \<longleftrightarrow> (\<exists>kvs. v = Obj kvs)"
  by (cases v) simp_all

lemma Marker_string_coordinates:
  assumes "is_Obj w" and "Get w ''LATITUDE'' = Str a" and "Get w ''LONGITUDE'' = Str b"
  shows "Marker w i
           = Inr \<lparr>key = i, position = (StringToNumber a, StringToNumber b), popup = Popup w\<rparr>"
  using assms by (auto simp: Marker_def Number_def is_Obj_iff)

lemma well_shaped_coordinates:
  assumes "well_shaped w"
  obtains a b where "is_Obj w" and "Get w ''LATITUDE'' = Str a" and "Get w ''LONGITUDE'' = Str b"
  using assms by (cases w) (auto simp: is_Str_iff split: option.splits)

lemma Marker_well_shaped: "well_shaped w \<Longrightarrow> \<exists>m. Marker w i = Inr m"
  by (erule well_shaped_coordinates) (simp add: Marker_string_coordinates)

lemma markers_well_shaped:
  assumes "list_all well_shaped ws"
  shows "\<exists>ms. markers (Arr ws) = Inr ms"
proof -
  have "\<forall>j<length ws. \<exists>m. Marker (ws ! j) j = Inr m"
    using assms by (simp add: list_all_length Marker_well_shaped)
  then obtain g where g: "\<forall>j<length ws. Marker (ws ! j) j = Inr (g j)"
    by metis
  then have "array_map Marker ws 0 = Inr (map g [0..<length ws])"
    by (simp add: array_map_Inr_iff)
  then show ?thesis by (simp add: markers_def)
qed

lemma markers_Inr_iff:
  "markers (Arr ws) = Inr ms \<longleftrightarrow>
     length ms = length ws \<and> (\<forall>i<length ws. Marker (ws ! i) i = Inr (ms ! i))"
  by (simp add: markers_def array_map_Inr_iff)

lemma fst_App: "fst (App st) = markers (wells st)"
  by (simp add: App_def console_log_def)

text \<open>
  Claim C1. When the fetch resolves with an array of N well-shaped records, the state cell
  holds that array, and a render of it yields exactly N markers, the marker at position i
  being the one the callback builds from record i (with key i).
\<close>

theorem one_marker_per_record:
  assumes "list_all well_shaped ws" and "json r = Inr (Arr ws)"
  shows "\<exists>ms. fst (App (useEffect (Inr r) st)) = Inr ms
            \<and> length ms = length ws
            \<and> (\<forall>i<length ws. Marker (ws ! i) i = Inr (ms ! i) \<and> key (ms ! i) = i)"
proof -
  have w: "wells (useEffect (Inr r) st) = Arr ws"
    using assms(2) by (simp add: useEffect_json wells_dispatch_SET_WELLS)
  obtain ms where ms: "markers (Arr ws) = Inr ms"
    using markers_well_shaped [OF assms(1)] by blast
  then have l: "length ms = length ws"
    and m: "\<forall>i<length ws. Marker (ws ! i) i = Inr (ms ! i)"
    by (simp_all add: markers_Inr_iff)
  have "key (ms ! i) = i" if "i < length ws" for i
  proof -
    have "Marker (ws ! i) i = Inr (ms ! i)" using m that by simp
    then show ?thesis
      by (auto simp: Marker_def split: if_splits sum.splits dest: arg_cong [where f = key])
  qed
  with w ms l m show ?thesis by (simp add: fst_App)
qed


theorem one_marker_per_record_witness:
  "list_all well_shaped [well_A, well_B]
   \<and> json (ok_response (Arr [well_A, well_B])) = Inr (Arr [well_A, well_B])
   \<and> fst (App (useEffect (Inr (ok_response (Arr [well_A, well_B]))) initial_state))
       = Inr [\<lparr>key = 0, position = (Finite (4821 / 100), Finite (- 1036 / 10)), popup = Popup well_A\<rparr>,
              \<lparr>key = 1, position = (NaN, Finite 0), popup = Popup well_B\<rparr>]"
proof -
  have shaped: "list_all well_shaped [well_A, well_B]"
    by (simp add: well_shaped_samples)
  have body: "json (ok_response (Arr [well_A, well_B])) = Inr (Arr [well_A, well_B])"
    by (simp add: ok_response_def)
  obtain ms where ms: "fst (App (useEffect (Inr (ok_response (Arr [well_A, well_B]))) initial_state)) = Inr ms"
    and len: "length ms = length [well_A, well_B]"
    and each: "\<forall>i<length [well_A, well_B]. Marker ([well_A, well_B] ! i) i = Inr (ms ! i) \<and> key (ms ! i) = i"
    using one_marker_per_record [OF shaped body, of initial_state] by blast
  from each have "Marker well_A 0 = Inr (ms ! 0)" and "Marker well_B 1 = Inr (ms ! 1)"
    by (simp_all add: all_less_Suc)
  then have "ms ! 0 = \<lparr>key = 0, position = (Finite (4821 / 100), Finite (- 1036 / 10)), popup = Popup well_A\<rparr>"
    and "ms ! 1 = \<lparr>key = 1, position = (NaN, Finite 0), popup = Popup well_B\<rparr>"
    by (simp_all add: Marker_well_A Marker_well_B)
  moreover from len obtain a b where "ms = [a, b]"
    by (cases ms; cases "tl ms") auto
  ultimately have "ms = [\<lparr>key = 0, position = (Finite (4821 / 100), Finite (- 1036 / 10)), popup = Popup well_A\<rparr>,
                         \<lparr>key = 1, position = (NaN, Finite 0), popup = Popup well_B\<rparr>]"
    by simp
  with shaped body ms show ?thesis by simp
qed

text \<open>
  Claim C9. A JSON value that is not an array (an object, a string, a number, a boolean,
  \<^verbatim>\<open>null\<close>) is dispatched as it is and becomes the state; the next render then raises a
  TypeError at \<^verbatim>\<open>wells.map\<close>. A render returns markers only when the state is an array.
\<close>

theorem non_array_json_breaks_render:
  assumes "json r = Inr v" and "v \<noteq> Undefined" and "\<not> is_Arr v"
  shows "wells (useEffect (Inr r) st) = v
         \<and> dispatched (useEffect (Inr r) st) = dispatched st @ [SET_WELLS v]
         \<and> fst (App (useEffect (Inr r) st)) = Inl TypeError
         \<and> (\<forall>s ms. fst (App s) = Inr ms \<longrightarrow> is_Arr (wells s))"
proof (intro conjI allI impI)
  show w: "wells (useEffect (Inr r) st) = v"
    using assms(1,2) by (simp add: useEffect_json wells_dispatch_SET_WELLS)
  show "dispatched (useEffect (Inr r) st) = dispatched st @ [SET_WELLS v]"
    using assms(1) by (simp add: useEffect_json dispatched_dispatch)
  show "fst (App (useEffect (Inr r) st)) = Inl TypeError"
    using assms(3) by (cases v) (simp_all add: fst_App w markers_def)
next
  fix s ms
  assume "fst (App s) = Inr ms"
  then show "is_Arr (wells s)"
    by (cases "wells s") (simp_all add: fst_App markers_def)
qed

theorem non_array_json_breaks_render_witness:
  "json (ok_response well_A) = Inr well_A \<and> well_A \<noteq> Undefined \<and> \<not> is_Arr well_A
   \<and> wells (useEffect (Inr (ok_response well_A)) initial_state) = well_A
   \<and> dispatched (useEffect (Inr (ok_response well_A)) initial_state) = [SET_WELLS well_A]
   \<and> fst (App (useEffect (Inr (ok_response well_A)) initial_state)) = Inl TypeError
   \<and> fst (App initial_state) = Inr [] \<and> is_Arr (wells initial_state)"
proof -
  have h: "json (ok_response well_A) = Inr well_A" "well_A \<noteq> Undefined" "\<not> is_Arr well_A"
    by (simp_all add: ok_response_def well_A_def)
  have r: "fst (App initial_state) = Inr []"
    by (simp add: fst_App markers_def initial_state_def)
  from non_array_json_breaks_render [OF h, of initial_state] r
  have "wells (useEffect (Inr (ok_response well_A)) initial_state) = well_A"
    and "dispatched (useEffect (Inr (ok_response well_A)) initial_state) = [SET_WELLS well_A]"
    and "fst (App (useEffect (Inr (ok_response well_A)) initial_state)) = Inl TypeError"
    and "is_Arr (wells initial_state)"
    by (simp_all add: initial_state_def)
  with h r show ?thesis by simp
qed

text \<open>
  Claim C8. Dispatching \<^verbatim>\<open>SET_WELLS\<close> with the same payload a second time changes nothing
  that is rendered: the render after two dispatches equals the render after one. For a
  sequence payload both are the render of that payload alone, whatever the state held
  before, so no marker of an earlier state survives.
\<close>

theorem SET_WELLS_idempotent_render:
  "fst (App (dispatch (SET_WELLS p) (dispatch (SET_WELLS p) s)))
     = fst (App (dispatch (SET_WELLS p) s))
   \<and> fst (App (dispatch (SET_WELLS (Arr ws)) (dispatch (SET_WELLS (Arr ws)) s)))
     = markers (Arr ws)
   \<and> fst (App (dispatch (SET_WELLS (Arr ws)) s)) = markers (Arr ws)"
proof -
  have "wells (dispatch (SET_WELLS p) (dispatch (SET_WELLS p) s)) = wells (dispatch (SET_WELLS p) s)"
    by (simp add: dispatch_def SET_WELLS_def reducer_def produce_def)
  then show ?thesis
    by (simp add: fst_App wells_dispatch_SET_WELLS)
qed

section \<open>The reader against the grammar\<close>

subsection \<open>What the reader accepts is in the grammar\<close>

lemma DecimalDigits_Some: "DecimalDigits s = Some n \<Longrightarrow> is_DecimalDigits s"
  by (simp add: DecimalDigits_def is_DecimalDigits_def split: if_splits)

lemma SignedInteger_Some:
  assumes "SignedInteger r = Some e"
  shows "\<exists>sg ds. r = sg @ ds \<and> opt is_sign sg \<and> is_DecimalDigits ds"
proof (cases r)
  case Nil
  with assms show ?thesis by (simp add: SignedInteger_def)
next
  case (Cons c r')
  consider "c = CHR ''+''" | "c = CHR ''-''" | "c \<noteq> CHR ''+''" "c \<noteq> CHR ''-''" by blast
  then show ?thesis
  proof cases
    case 1
    with assms Cons have "is_DecimalDigits r'"
      by (auto simp: SignedInteger_def dest: DecimalDigits_Some)
    with 1 Cons have "r = ''+'' @ r' \<and> opt is_sign ''+'' \<and> is_DecimalDigits r'"
      by (simp add: opt_def is_sign_def)
    then show ?thesis by blast
  next
    case 2
    with assms Cons have "is_DecimalDigits r'"
      by (auto simp: SignedInteger_def dest: DecimalDigits_Some)
    with 2 Cons have "r = ''-'' @ r' \<and> opt is_sign ''-'' \<and> is_DecimalDigits r'"
      by (simp add: opt_def is_sign_def)
    then show ?thesis by blast
  next
    case 3
    with assms Cons have "is_DecimalDigits r"
      by (auto simp: SignedInteger_def dest: DecimalDigits_Some)
    then have "r = [] @ r \<and> opt is_sign [] \<and> is_DecimalDigits r"
      by (simp add: opt_def)
    then show ?thesis by blast
  qed
qed

lemma ExponentPart_Some:
  assumes "ExponentPart x = Some e"
  shows "opt is_ExponentPart x"
proof (cases x)
  case Nil
  then show ?thesis by (simp add: opt_def)
next
  case (Cons c r)
  with assms have c: "c = CHR ''e'' \<or> c = CHR ''E''" and "SignedInteger r = Some e"
    by (auto simp: ExponentPart_def split: if_splits)
  then obtain sg ds where "r = sg @ ds" "opt is_sign sg" "is_DecimalDigits ds"
    using SignedInteger_Some by blast
  with c Cons show ?thesis
    unfolding opt_def is_ExponentPart_def by blast
qed

lemma takeWhile_digits: "takeWhile DecimalDigit s \<noteq> [] \<Longrightarrow> is_DecimalDigits (takeWhile DecimalDigit s)"
  by (auto simp: is_DecimalDigits_def list_all_iff dest: set_takeWhileD)

lemma opt_takeWhile_digits: "opt is_DecimalDigits (takeWhile DecimalDigit s)"
  using takeWhile_digits [of s] by (auto simp: opt_def)

lemma StrUnsignedDecimalLiteral_Some:
  assumes "StrUnsignedDecimalLiteral u = Some n"
  shows "is_StrUnsignedDecimalLiteral u"
proof (cases "u = ''Infinity''")
  case True
  then show ?thesis by (simp add: is_StrUnsignedDecimalLiteral_def)
next
  case False
  define ip where "ip = takeWhile DecimalDigit u"
  define r1 where "r1 = dropWhile DecimalDigit u"
  have u: "u = ip @ r1" by (simp add: ip_def r1_def)
  show ?thesis
  proof (cases "\<exists>r. r1 = CHR ''.'' # r")
    case True
    then obtain r where r: "r1 = CHR ''.'' # r" by blast
    define fp where "fp = takeWhile DecimalDigit r"
    define r2 where "r2 = dropWhile DecimalDigit r"
    have r': "r = fp @ r2" by (simp add: fp_def r2_def)
    from assms False r have ne: "\<not> (ip = [] \<and> fp = [])" and "\<exists>e. ExponentPart r2 = Some e"
      by (auto simp: StrUnsignedDecimalLiteral_def Let_def ip_def [symmetric] r1_def [symmetric]
          fp_def r2_def split: if_splits option.splits)
    then have x: "opt is_ExponentPart r2" using ExponentPart_Some by blast
    have decomp: "u = ip @ ''.'' @ fp @ r2" using u r r' by simp
    show ?thesis
    proof (cases "ip = []")
      case True
      with ne have "is_DecimalDigits fp" using takeWhile_digits [of r] by (simp add: fp_def)
      with decomp True x have "\<exists>b x. u = ''.'' @ b @ x \<and> is_DecimalDigits b \<and> opt is_ExponentPart x"
        by auto
      then show ?thesis by (simp add: is_StrUnsignedDecimalLiteral_def)
    next
      case False
      then have "is_DecimalDigits ip" using takeWhile_digits [of u] by (simp add: ip_def)
      moreover have "opt is_DecimalDigits fp" by (simp add: fp_def opt_takeWhile_digits)
      ultimately have "\<exists>a b x. u = a @ ''.'' @ b @ x \<and> is_DecimalDigits a \<and> opt is_DecimalDigits b
            \<and> opt is_ExponentPart x"
        using decomp x by blast
      then show ?thesis by (simp add: is_StrUnsignedDecimalLiteral_def)
    qed
  next
    case nodot: False
    from assms \<open>u \<noteq> ''Infinity''\<close> nodot have ne: "ip \<noteq> []" and "\<exists>e. ExponentPart r1 = Some e"
      by (auto simp: StrUnsignedDecimalLiteral_def Let_def ip_def [symmetric] r1_def [symmetric]
          split: if_splits option.splits list.splits)
    then have "opt is_ExponentPart r1" using ExponentPart_Some by blast
    moreover have "is_DecimalDigits ip" using ne takeWhile_digits [of u] by (simp add: ip_def)
    ultimately have "\<exists>a x. u = a @ x \<and> is_DecimalDigits a \<and> opt is_ExponentPart x"
      using u by blast
    then show ?thesis by (simp add: is_StrUnsignedDecimalLiteral_def)
  qed
qed

lemma StrDecimalLiteral_Some:
  assumes "StrDecimalLiteral d = Some n"
  shows "is_StrDecimalLiteral d"
proof (cases d)
  case Nil
  with assms show ?thesis by (simp add: StrDecimalLiteral_def)
next
  case (Cons c r)
  consider "c = CHR ''+''" | "c = CHR ''-''" | "c \<noteq> CHR ''+''" "c \<noteq> CHR ''-''" by blast
  then show ?thesis
  proof cases
    case 1
    with assms Cons have "is_StrUnsignedDecimalLiteral r"
      by (auto simp: StrDecimalLiteral_def dest: StrUnsignedDecimalLiteral_Some)
    with 1 Cons have "d = ''+'' @ r \<and> opt is_sign ''+'' \<and> is_StrUnsignedDecimalLiteral r"
      by (simp add: opt_def is_sign_def)
    then show ?thesis unfolding is_StrDecimalLiteral_def by blast
  next
    case 2
    with assms Cons have "is_StrUnsignedDecimalLiteral r"
      by (auto simp: StrDecimalLiteral_def dest: StrUnsignedDecimalLiteral_Some)
    with 2 Cons have "d = ''-'' @ r \<and> opt is_sign ''-'' \<and> is_StrUnsignedDecimalLiteral r"
      by (simp add: opt_def is_sign_def)
    then show ?thesis unfolding is_StrDecimalLiteral_def by blast
  next
    case 3
    with assms Cons have "is_StrUnsignedDecimalLiteral d"
      by (auto simp: StrDecimalLiteral_def dest: StrUnsignedDecimalLiteral_Some)
    then have "d = [] @ d \<and> opt is_sign [] \<and> is_StrUnsignedDecimalLiteral d"
      by (simp add: opt_def)
    then show ?thesis unfolding is_StrDecimalLiteral_def by blast
  qed
qed

lemma radix_digits_Some: "radix_digits radix ok ds = Some n \<Longrightarrow> ds \<noteq> [] \<and> list_all ok ds"
  by (simp add: radix_digits_def split: if_splits)

lemma NonDecimalIntegerLiteral_Some:
  assumes "NonDecimalIntegerLiteral s = Some n"
  shows "is_NonDecimalIntegerLiteral s"
proof -
  from assms obtain z p ds where s: "s = z # p # ds"
    by (auto simp: NonDecimalIntegerLiteral_def split: list.splits)
  with assms have z: "z = CHR ''0''"
    by (auto simp: NonDecimalIntegerLiteral_def split: if_splits)
  let ?bin = "p = CHR ''b'' \<or> p = CHR ''B''"
  let ?oct = "p = CHR ''o'' \<or> p = CHR ''O''"
  let ?hex = "p = CHR ''x'' \<or> p = CHR ''X''"
  have eq: "NonDecimalIntegerLiteral s =
      (if ?bin then radix_digits 2 BinaryDigit ds
       else if ?oct then radix_digits 8 OctalDigit ds
       else if ?hex then radix_digits 16 HexDigit ds else None)"
    by (simp add: s z NonDecimalIntegerLiteral_def)
  consider (bin) ?bin | (oct) "\<not> ?bin" ?oct | (hex) "\<not> ?bin" "\<not> ?oct" ?hex
    | (none) "\<not> ?bin" "\<not> ?oct" "\<not> ?hex"
    by blast
  then have "?bin \<and> ds \<noteq> [] \<and> list_all BinaryDigit ds
     \<or> ?oct \<and> ds \<noteq> [] \<and> list_all OctalDigit ds
     \<or> ?hex \<and> ds \<noteq> [] \<and> list_all HexDigit ds"
  proof cases
    case bin
    with eq assms have "radix_digits 2 BinaryDigit ds = Some n" by simp
    with bin show ?thesis by (simp add: radix_digits_Some)
  next
    case oct
    with eq assms have "radix_digits 8 OctalDigit ds = Some n" by simp
    with oct show ?thesis by (simp add: radix_digits_Some)
  next
    case hex
    with eq assms have "radix_digits 16 HexDigit ds = Some n" by simp
    with hex show ?thesis by (simp add: radix_digits_Some)
  next
    case none
    with eq assms show ?thesis by simp
  qed
  then have "\<exists>p ds. s = CHR ''0'' # p # ds \<and> ds \<noteq> []
        \<and> ((p = CHR ''b'' \<or> p = CHR ''B'') \<and> list_all BinaryDigit ds
           \<or> (p = CHR ''o'' \<or> p = CHR ''O'') \<and> list_all OctalDigit ds
           \<or> (p = CHR ''x'' \<or> p = CHR ''X'') \<and> list_all HexDigit ds)"
    using s z by blast
  then show ?thesis by (simp add: is_NonDecimalIntegerLiteral_def)
qed

lemma StrNumericLiteral_Some: "StrNumericLiteral l = Some n \<Longrightarrow> is_StrNumericLiteral l"
  by (auto simp: StrNumericLiteral_def is_StrNumericLiteral_def split: option.splits
      dest: StrDecimalLiteral_Some NonDecimalIntegerLiteral_Some)

lemma trim_decomposition:
  "\<exists>pre post. s = pre @ trim s @ post \<and> list_all StrWhiteSpaceChar pre
     \<and> list_all StrWhiteSpaceChar post"
proof -
  define pre where "pre = takeWhile StrWhiteSpaceChar s"
  define u where "u = dropWhile StrWhiteSpaceChar s"
  define post where "post = rev (takeWhile StrWhiteSpaceChar (rev u))"
  have "rev (takeWhile StrWhiteSpaceChar (rev u) @ dropWhile StrWhiteSpaceChar (rev u)) = rev (rev u)"
    by (simp only: takeWhile_dropWhile_id)
  then have "rev (dropWhile StrWhiteSpaceChar (rev u)) @ post = u"
    by (simp only: rev_append rev_rev_ident post_def)
  then have "u = trim s @ post"
    by (simp only: trim_def u_def)
  moreover have "s = pre @ u" by (simp add: pre_def u_def)
  moreover have "list_all StrWhiteSpaceChar pre" "list_all StrWhiteSpaceChar post"
    by (auto simp: pre_def post_def list_all_iff dest: set_takeWhileD)
  ultimately show ?thesis by auto
qed

lemma StringToNumber_accepts:
  assumes "StringToNumber s \<noteq> NaN"
  shows "is_StringNumericLiteral s"
proof -
  from assms have "opt is_StrNumericLiteral (trim s)"
    by (auto simp: StringToNumber_def Let_def opt_def split: if_splits option.splits
        dest: StrNumericLiteral_Some)
  with trim_decomposition [of s] show ?thesis
    unfolding is_StringNumericLiteral_def by blast
qed

subsection \<open>What is in the grammar, the reader accepts\<close>

lemma digit_not_white: "DecimalDigit c \<Longrightarrow> \<not> StrWhiteSpaceChar c"
  by (auto simp: DecimalDigit_def StrWhiteSpaceChar_def)

lemma radix_digit_not_white:
  "BinaryDigit c \<Longrightarrow> \<not> StrWhiteSpaceChar c"
  "OctalDigit c \<Longrightarrow> \<not> StrWhiteSpaceChar c"
  "HexDigit c \<Longrightarrow> \<not> StrWhiteSpaceChar c"
  by (auto simp: BinaryDigit_def OctalDigit_def HexDigit_def StrWhiteSpaceChar_def)

lemma black_simps:
  "black []" "black (c # s) \<longleftrightarrow> \<not> StrWhiteSpaceChar c \<and> black s"
  "black (s @ t) \<longleftrightarrow> black s \<and> black t"
  by (auto simp: black_def)

lemma black_digits: "is_DecimalDigits ds \<Longrightarrow> black ds"
  by (auto simp: black_def is_DecimalDigits_def list_all_iff digit_not_white)

lemma black_opt: "(\<And>s. P s \<Longrightarrow> black s) \<Longrightarrow> opt P s \<Longrightarrow> black s"
  by (auto simp: opt_def black_simps)

lemma black_sign: "opt is_sign sg \<Longrightarrow> black sg"
  by (auto simp: opt_def is_sign_def black_simps StrWhiteSpaceChar_def)

lemma black_ExponentPart: "is_ExponentPart x \<Longrightarrow> black x"
  by (auto simp: is_ExponentPart_def black_simps black_digits black_sign StrWhiteSpaceChar_def)

lemma black_Infinity: "black ''Infinity''"
  by (simp add: black_simps StrWhiteSpaceChar_def)

lemma black_dot: "black ''.''"
  by (simp add: black_simps StrWhiteSpaceChar_def)

lemma black_StrUnsignedDecimalLiteral:
  assumes "is_StrUnsignedDecimalLiteral u"
  shows "black u"
proof -
  have x: "black x" if "opt is_ExponentPart x" for x
    using that by (rule black_opt [of is_ExponentPart, rotated]) (rule black_ExponentPart)
  have b: "black b" if "opt is_DecimalDigits b" for b
    using that by (rule black_opt [of is_DecimalDigits, rotated]) (rule black_digits)
  from assms consider "u = ''Infinity''"
    | a b' x' where "u = a @ ''.'' @ b' @ x'" "is_DecimalDigits a" "opt is_DecimalDigits b'" "opt is_ExponentPart x'"
    | b' x' where "u = ''.'' @ b' @ x'" "is_DecimalDigits b'" "opt is_ExponentPart x'"
    | a x' where "u = a @ x'" "is_DecimalDigits a" "opt is_ExponentPart x'"
    unfolding is_StrUnsignedDecimalLiteral_def by blast
  then show ?thesis
  proof cases
    case 1
    then show ?thesis by (simp only: black_Infinity)
  next
    case 2
    then show ?thesis using black_dot by (simp only: black_simps black_digits b x simp_thms)
  next
    case 3
    then show ?thesis using black_dot by (simp only: black_simps black_digits b x simp_thms)
  next
    case 4
    then show ?thesis by (simp only: black_simps black_digits x simp_thms)
  qed
qed

lemma black_StrDecimalLiteral: "is_StrDecimalLiteral d \<Longrightarrow> black d"
  unfolding is_StrDecimalLiteral_def
  by (auto simp: black_simps black_StrUnsignedDecimalLiteral black_sign)

lemma black_NonDecimalIntegerLiteral:
  assumes "is_NonDecimalIntegerLiteral l"
  shows "black l"
proof -
  from assms obtain p ds where l: "l = CHR ''0'' # p # ds"
    and p: "p \<in> set ''bBoOxX''"
    and ds: "list_all BinaryDigit ds \<or> list_all OctalDigit ds \<or> list_all HexDigit ds"
    unfolding is_NonDecimalIntegerLiteral_def by auto
  from ds have "black ds"
    by (auto simp: black_def list_all_iff radix_digit_not_white)
  moreover from p have "\<not> StrWhiteSpaceChar p"
    by (auto simp: StrWhiteSpaceChar_def)
  ultimately show ?thesis
    by (simp add: l black_simps) (simp add: StrWhiteSpaceChar_def)
qed

lemma black_StrNumericLiteral: "is_StrNumericLiteral l \<Longrightarrow> black l"
  by (auto simp: is_StrNumericLiteral_def black_StrDecimalLiteral black_NonDecimalIntegerLiteral)

lemma trim_blank:
  assumes "list_all StrWhiteSpaceChar s"
  shows "trim s = []"
proof -
  from assms have d: "dropWhile StrWhiteSpaceChar s = []"
    by (induction s) simp_all
  show ?thesis unfolding trim_def d by simp
qed

lemma dropWhile_prefix: "list_all P xs \<Longrightarrow> dropWhile P (xs @ ys) = dropWhile P ys"
  by (induction xs) simp_all

lemma trim_padded:
  assumes "list_all StrWhiteSpaceChar pre" and "list_all StrWhiteSpaceChar post" and "black l"
  shows "trim (pre @ l @ post) = l"
proof (cases "l = []")
  case True
  with assms show ?thesis by (simp add: trim_blank)
next
  case False
  then obtain c l' where l: "l = c # l'" by (cases l) auto
  from False obtain l'' d where l2: "l = l'' @ [d]" by (cases l rule: rev_cases) auto
  have "c \<in> set l" by (simp add: l)
  moreover have "d \<in> set l" by (simp add: l2)
  ultimately have "c \<in> set l" and "d \<in> set l" by blast+
  with assms(3) have c: "\<not> StrWhiteSpaceChar c" and d: "\<not> StrWhiteSpaceChar d"
    by (auto simp: black_def)
  have "dropWhile StrWhiteSpaceChar (pre @ l @ post) = dropWhile StrWhiteSpaceChar (l @ post)"
    using assms(1) by (simp only: dropWhile_prefix)
  also have "\<dots> = l @ post" using c l by simp
  finally have 1: "dropWhile StrWhiteSpaceChar (pre @ l @ post) = l @ post" .
  have "list_all StrWhiteSpaceChar (rev post)"
    using assms(2) by (simp add: list_all_iff)
  then have "dropWhile StrWhiteSpaceChar (rev (l @ post)) = dropWhile StrWhiteSpaceChar (rev l)"
    by (simp only: rev_append dropWhile_prefix)
  also have "\<dots> = rev l" using d l2 by simp
  finally show ?thesis by (simp add: trim_def 1)
qed

lemma DecimalDigits_complete: "is_DecimalDigits ds \<Longrightarrow> \<exists>n. DecimalDigits ds = Some n"
  by (simp add: DecimalDigits_def is_DecimalDigits_def)

lemma digits_head:
  assumes "is_DecimalDigits ds"
  obtains c r where "ds = c # r" and "DecimalDigit c"
  using assms by (cases ds) (auto simp: is_DecimalDigits_def)

lemma digit_not_symbol:
  assumes "DecimalDigit c"
  shows "c \<noteq> CHR ''+''" "c \<noteq> CHR ''-''" "c \<noteq> CHR ''.''" "c \<noteq> CHR ''I''"
    "c \<noteq> CHR ''e''" "c \<noteq> CHR ''E''"
  using assms by (auto simp: DecimalDigit_def)

lemma SignedInteger_complete:
  assumes "opt is_sign sg" and "is_DecimalDigits ds"
  shows "\<exists>e. SignedInteger (sg @ ds) = Some e"
proof -
  obtain n where n: "DecimalDigits ds = Some n"
    using assms(2) DecimalDigits_complete by blast
  from assms(1) consider "sg = []" | "sg = ''+''" | "sg = ''-''"
    by (auto simp: opt_def is_sign_def)
  then show ?thesis
  proof cases
    case 1
    obtain c r where "ds = c # r" "DecimalDigit c"
      using assms(2) by (rule digits_head)
    with 1 n show ?thesis
      by (simp add: SignedInteger_def digit_not_symbol)
  next
    case 2
    with n show ?thesis by (simp add: SignedInteger_def)
  next
    case 3
    with n show ?thesis by (simp add: SignedInteger_def)
  qed
qed

lemma ExponentPart_complete:
  assumes "opt is_ExponentPart x"
  shows "\<exists>e. ExponentPart x = Some e"
proof (cases "x = []")
  case True
  then show ?thesis by (simp add: ExponentPart_def)
next
  case False
  with assms obtain i sg ds where "x = i # sg @ ds" "i = CHR ''e'' \<or> i = CHR ''E''"
    "opt is_sign sg" "is_DecimalDigits ds"
    by (auto simp: opt_def is_ExponentPart_def)
  then show ?thesis
    using SignedInteger_complete [of sg ds] by (auto simp: ExponentPart_def)
qed

lemma exponent_head:
  assumes "opt is_ExponentPart x"
  shows "x = [] \<or> (\<exists>r. x = CHR ''e'' # r \<or> x = CHR ''E'' # r)"
  using assms by (auto simp: opt_def is_ExponentPart_def)

lemma takeWhile_digits_stop:
  assumes "list_all DecimalDigit a" and "rest = [] \<or> \<not> DecimalDigit (hd rest)"
  shows "takeWhile DecimalDigit (a @ rest) = a" and "dropWhile DecimalDigit (a @ rest) = rest"
proof -
  have t: "takeWhile DecimalDigit rest = []" and d: "dropWhile DecimalDigit rest = rest"
    using assms(2) by (cases rest; simp)+
  from assms(1) show "takeWhile DecimalDigit (a @ rest) = a"
    by (induction a) (simp_all add: t)
  from assms(1) show "dropWhile DecimalDigit (a @ rest) = rest"
    by (induction a) (simp_all add: d)
qed

lemma exponent_stops_digits:
  assumes "opt is_ExponentPart x"
  shows "x = [] \<or> \<not> DecimalDigit (hd x)"
  using exponent_head [OF assms] by (auto simp: DecimalDigit_def)

lemma opt_digits_all: "opt is_DecimalDigits b \<Longrightarrow> list_all DecimalDigit b"
  by (auto simp: opt_def is_DecimalDigits_def)

lemma StrUnsignedDecimalLiteral_complete:
  assumes "is_StrUnsignedDecimalLiteral u"
  shows "\<exists>n. StrUnsignedDecimalLiteral u = Some n"
proof -
  from assms consider (inf) "u = ''Infinity''"
    | (dot) a b x where "u = a @ ''.'' @ b @ x" "is_DecimalDigits a" "opt is_DecimalDigits b" "opt is_ExponentPart x"
    | (frac) b x where "u = ''.'' @ b @ x" "is_DecimalDigits b" "opt is_ExponentPart x"
    | (int) a x where "u = a @ x" "is_DecimalDigits a" "opt is_ExponentPart x"
    unfolding is_StrUnsignedDecimalLiteral_def by blast
  then show ?thesis
  proof cases
    case inf
    then show ?thesis by (simp add: StrUnsignedDecimalLiteral_def)
  next
    case dot
    obtain c r where a: "a = c # r" "DecimalDigit c"
      using dot(2) by (rule digits_head)
    then have ninf: "u \<noteq> ''Infinity''"
      using dot(1) by (auto simp: digit_not_symbol)
    have alla: "list_all DecimalDigit a" using dot(2) by (simp add: is_DecimalDigits_def)
    have ip: "takeWhile DecimalDigit u = a" and r1: "dropWhile DecimalDigit u = ''.'' @ b @ x"
      unfolding dot(1) by (rule takeWhile_digits_stop [OF alla]; simp add: DecimalDigit_def)+
    have fp: "takeWhile DecimalDigit (b @ x) = b" and r2: "dropWhile DecimalDigit (b @ x) = x"
      using takeWhile_digits_stop [OF opt_digits_all [OF dot(3)] exponent_stops_digits [OF dot(4)]]
      by simp_all
    obtain e where "ExponentPart x = Some e"
      using ExponentPart_complete [OF dot(4)] by blast
    then show ?thesis
      using ninf a by (simp add: StrUnsignedDecimalLiteral_def ip r1 fp r2)
  next
    case frac
    have ninf: "u \<noteq> ''Infinity''" using frac(1) by simp
    have ip: "takeWhile DecimalDigit u = []" and r1: "dropWhile DecimalDigit u = ''.'' @ b @ x"
      unfolding frac(1) by (simp_all add: DecimalDigit_def)
    have fp: "takeWhile DecimalDigit (b @ x) = b" and r2: "dropWhile DecimalDigit (b @ x) = x"
      using takeWhile_digits_stop [OF _ exponent_stops_digits [OF frac(3)], of b] frac(2)
      by (simp_all add: is_DecimalDigits_def)
    have b: "b \<noteq> []" using frac(2) by (simp add: is_DecimalDigits_def)
    obtain e where "ExponentPart x = Some e"
      using ExponentPart_complete [OF frac(3)] by blast
    then show ?thesis
      using ninf b by (simp add: StrUnsignedDecimalLiteral_def ip r1 fp r2)
  next
    case int
    obtain c r where a: "a = c # r" "DecimalDigit c"
      using int(2) by (rule digits_head)
    then have ninf: "u \<noteq> ''Infinity''"
      using int(1) by (auto simp: digit_not_symbol)
    have alla: "list_all DecimalDigit a" using int(2) by (simp add: is_DecimalDigits_def)
    have ip: "takeWhile DecimalDigit u = a" and r1: "dropWhile DecimalDigit u = x"
      unfolding int(1)
      using takeWhile_digits_stop [OF alla exponent_stops_digits [OF int(3)]] by simp_all
    obtain e where e: "ExponentPart x = Some e"
      using ExponentPart_complete [OF int(3)] by blast
    from exponent_head [OF int(3)]
    have nodot: "(case x of [] \<Rightarrow> [] | c # r \<Rightarrow> if c = CHR ''.'' then takeWhile DecimalDigit r else []) = []"
      and rest: "(case x of [] \<Rightarrow> [] | c # r \<Rightarrow> if c = CHR ''.'' then dropWhile DecimalDigit r else x) = x"
      by auto
    show ?thesis
      using ninf a e by (simp add: StrUnsignedDecimalLiteral_def ip r1 nodot rest)
  qed
qed

lemma unsigned_head:
  assumes "is_StrUnsignedDecimalLiteral u"
  obtains c r where "u = c # r" and "c \<noteq> CHR ''+''" and "c \<noteq> CHR ''-''"
proof -
  from assms consider (inf) "u = ''Infinity''"
    | (dot) a b x where "u = a @ ''.'' @ b @ x" "is_DecimalDigits a"
    | (frac) b x where "u = ''.'' @ b @ x"
    | (int) a x where "u = a @ x" "is_DecimalDigits a"
    unfolding is_StrUnsignedDecimalLiteral_def by blast
  then show ?thesis
  proof cases
    case inf
    then show ?thesis using that by simp
  next
    case dot
    from dot(2) obtain c r where "a = c # r" "DecimalDigit c" by (rule digits_head)
    with dot(1) show ?thesis using that by (simp add: digit_not_symbol)
  next
    case frac
    then show ?thesis using that by simp
  next
    case int
    from int(2) obtain c r where "a = c # r" "DecimalDigit c" by (rule digits_head)
    with int(1) show ?thesis using that by (simp add: digit_not_symbol)
  qed
qed

lemma StrDecimalLiteral_complete:
  assumes "is_StrDecimalLiteral d"
  shows "\<exists>n. StrDecimalLiteral d = Some n"
proof -
  from assms obtain sg u where d: "d = sg @ u" and sg: "opt is_sign sg"
    and u: "is_StrUnsignedDecimalLiteral u"
    unfolding is_StrDecimalLiteral_def by blast
  obtain n where n: "StrUnsignedDecimalLiteral u = Some n"
    using StrUnsignedDecimalLiteral_complete [OF u] by blast
  from sg consider "sg = []" | "sg = ''+''" | "sg = ''-''"
    by (auto simp: opt_def is_sign_def)
  then show ?thesis
  proof cases
    case 1
    obtain c r where "u = c # r" "c \<noteq> CHR ''+''" "c \<noteq> CHR ''-''"
      using u by (rule unsigned_head)
    with 1 d n show ?thesis by (simp add: StrDecimalLiteral_def)
  next
    case 2
    with d n show ?thesis by (simp add: StrDecimalLiteral_def)
  next
    case 3
    with d n show ?thesis by (simp add: StrDecimalLiteral_def)
  qed
qed

lemma NonDecimalIntegerLiteral_complete:
  assumes "is_NonDecimalIntegerLiteral l"
  shows "\<exists>n. NonDecimalIntegerLiteral l = Some n"
  using assms unfolding is_NonDecimalIntegerLiteral_def
  by (auto simp: NonDecimalIntegerLiteral_def radix_digits_def)

lemma StrNumericLiteral_complete:
  assumes "is_StrNumericLiteral l"
  shows "\<exists>n. StrNumericLiteral l = Some n"
proof (cases "StrDecimalLiteral l")
  case None
  with assms have "is_NonDecimalIntegerLiteral l"
    using StrDecimalLiteral_complete [of l] by (auto simp: is_StrNumericLiteral_def)
  with None show ?thesis
    using NonDecimalIntegerLiteral_complete [of l] by (simp add: StrNumericLiteral_def)
next
  case (Some n)
  then show ?thesis by (simp add: StrNumericLiteral_def)
qed

lemma StrUnsignedDecimalLiteral_not_NaN: "StrUnsignedDecimalLiteral u = Some n \<Longrightarrow> n = PosInfinity \<or> (\<exists>q. n = Finite q)"
  by (auto simp: StrUnsignedDecimalLiteral_def Let_def split: if_splits option.splits)

lemma StrNumericLiteral_not_NaN:
  assumes "StrNumericLiteral l = Some n"
  shows "n \<noteq> NaN"
proof -
  have dec: "m \<noteq> NaN" if "StrDecimalLiteral l = Some m" for m
  proof (cases l)
    case Nil
    with that show ?thesis by (simp add: StrDecimalLiteral_def)
  next
    case (Cons c r)
    with that consider "StrUnsignedDecimalLiteral r = Some m"
      | k where "StrUnsignedDecimalLiteral r = Some k" "m = negate k"
      | "StrUnsignedDecimalLiteral l = Some m"
      by (auto simp: StrDecimalLiteral_def split: if_splits)
    then show ?thesis
      by cases (auto simp: negate_def split: if_splits dest!: StrUnsignedDecimalLiteral_not_NaN)
  qed
  have nondec: "m \<noteq> NaN" if "NonDecimalIntegerLiteral l = Some m" for m
    using that
    by (auto simp: NonDecimalIntegerLiteral_def radix_digits_def split: list.splits if_splits)
  from assms show ?thesis
    by (auto simp: StrNumericLiteral_def split: option.splits dest: dec nondec)
qed

lemma StringToNumber_complete:
  assumes "is_StringNumericLiteral s"
  shows "StringToNumber s \<noteq> NaN"
proof -
  from assms obtain pre l post where s: "s = pre @ l @ post"
    and pre: "list_all StrWhiteSpaceChar pre" and post: "list_all StrWhiteSpaceChar post"
    and l: "opt is_StrNumericLiteral l"
    unfolding is_StringNumericLiteral_def by blast
  have "black l" using l by (rule black_opt [of is_StrNumericLiteral, rotated]) (rule black_StrNumericLiteral)
  then have t: "trim s = l" unfolding s using pre post by (simp add: trim_padded)
  show ?thesis
  proof (cases "l = []")
    case True
    with t show ?thesis by (simp add: StringToNumber_def)
  next
    case False
    with l have "is_StrNumericLiteral l" by (simp add: opt_def)
    then obtain n where n: "StrNumericLiteral l = Some n"
      using StrNumericLiteral_complete by blast
    then have "n \<noteq> NaN" by (rule StrNumericLiteral_not_NaN)
    with n t False show ?thesis by (simp add: StringToNumber_def)
  qed
qed

lemma StringToNumber_NaN_iff: "StringToNumber s = NaN \<longleftrightarrow> \<not> is_StringNumericLiteral s"
  using StringToNumber_complete StringToNumber_accepts by blast

section \<open>Properties of the popup\<close>

lemma nullish_field:
  assumes "case map_of kvs k of None \<Rightarrow> True | Some v \<Rightarrow> is_Str v"
  shows "nullish (Get (Obj kvs) k) (Str ''Unknown'')
           = (case map_of kvs k of None \<Rightarrow> Str ''Unknown'' | Some v \<Rightarrow> v)"
  using assms by (auto simp: nullish_def is_Str_iff split: option.splits)

lemma lines_Popup:
  "lines (Popup w)
     = map (\<lambda>f. [strong (fst f), space, Value (nullish (Get w (snd f)) (Str ''Unknown''))])
         display_fields"
  by (simp add: lines_def Popup_def display_fields_def strong_def br_def space_def)

text \<open>
  Claim C6. For a well-shaped record the popup has eight lines, in the order name, status,
  type, API number, operator, closest city, oil produced, gas produced; each line is the
  label, a space, and the field's value when the record has the field, the text
  \<^verbatim>\<open>Unknown\<close> when it has not.
\<close>

theorem popup_shows_value_or_Unknown:
  assumes "well_shaped (Obj kvs)"
  shows "\<exists>m. Marker (Obj kvs) i = Inr m
            \<and> lines (popup m) = map (field_line kvs) display_fields"
proof -
  obtain a b where "Get (Obj kvs) ''LATITUDE'' = Str a" and "Get (Obj kvs) ''LONGITUDE'' = Str b"
    using assms by (rule well_shaped_coordinates)
  then have m: "Marker (Obj kvs) i
      = Inr \<lparr>key = i, position = (StringToNumber a, StringToNumber b), popup = Popup (Obj kvs)\<rparr>"
    by (simp add: Marker_string_coordinates)
  have "\<forall>k\<in>set optional_fields. case map_of kvs k of None \<Rightarrow> True | Some v \<Rightarrow> is_Str v"
    using assms by (simp add: list_all_iff)
  then have "\<forall>f\<in>set display_fields.
      nullish (Get (Obj kvs) (snd f)) (Str ''Unknown'')
        = (case map_of kvs (snd f) of None \<Rightarrow> Str ''Unknown'' | Some v \<Rightarrow> v)"
    by (intro ballI nullish_field) (auto simp: display_fields_def optional_fields_def)
  then have "lines (Popup (Obj kvs)) = map (field_line kvs) display_fields"
    by (simp add: lines_Popup field_line_def)
  with m show ?thesis by simp
qed

theorem popup_shows_value_or_Unknown_witness:
  "well_shaped well_A
   \<and> (\<exists>m. Marker well_A 0 = Inr m
          \<and> lines (popup m)
              = [[strong ''Well Name:'', space, Value (Str ''Well A'')],
                 [strong ''Status:'', space, Value (Str ''Unknown'')],
                 [strong ''Type:'', space, Value (Str ''Unknown'')],
                 [strong ''API No:'', space, Value (Str ''Unknown'')],
                 [strong ''Operator:'', space, Value (Str ''Unknown'')],
                 [strong ''Closest City:'', space, Value (Str ''Unknown'')],
                 [strong ''Oil Produced:'', space, Value (Str ''Unknown'')],
                 [strong ''Gas Produced:'', space, Value (Str ''Unknown'')]])"
  using popup_shows_value_or_Unknown
    [of "[(''LATITUDE'', Str ''48.21''), (''LONGITUDE'', Str ''-103.6''), (''WELL_NAME'', Str ''Well A'')]" 0]
  by (simp add: well_A_def optional_fields_def display_fields_def field_line_def)

section \<open>Properties of the marker position\<close>

lemma blank_is_zero: "blank s \<Longrightarrow> StringToNumber s = Finite 0"
  by (simp add: blank_def trim_blank StringToNumber_def)

lemma Get_Str_is_Obj: "Get w k = Str a \<Longrightarrow> is_Obj w"
  by (cases w) simp_all

text \<open>
  Claim C3. For a record whose two coordinates are strings, the callback returns a marker
  (it raises nothing, whatever the strings are), and the marker's position is the pair of
  \<^verbatim>\<open>Number\<close> of the latitude and \<^verbatim>\<open>Number\<close> of the longitude. The strings \<^verbatim>\<open>48.21\<close> and
  \<^verbatim>\<open>-103.6\<close> give (48.21, -103.6). A coordinate string outside the StringNumericLiteral
  grammar gives \<^verbatim>\<open>NaN\<close> for that coordinate, as \<^verbatim>\<open>not-a-number\<close> does.
\<close>

theorem marker_position_is_Number:
  assumes "Get w ''LATITUDE'' = Str a" and "Get w ''LONGITUDE'' = Str b"
  shows "(\<exists>m. Marker w i = Inr m
            \<and> Number (Get w ''LATITUDE'') = Inr (fst (position m))
            \<and> Number (Get w ''LONGITUDE'') = Inr (snd (position m))
            \<and> (a = ''48.21'' \<and> b = ''-103.6'' \<longrightarrow>
                 position m = (Finite (4821 / 100), Finite (- 1036 / 10)))
            \<and> (\<not> is_StringNumericLiteral a \<longrightarrow> fst (position m) = NaN)
            \<and> (\<not> is_StringNumericLiteral b \<longrightarrow> snd (position m) = NaN))
         \<and> \<not> is_StringNumericLiteral ''not-a-number''"
proof -
  have "is_Obj w" using assms(1) by (rule Get_Str_is_Obj)
  then have "Marker w i
      = Inr \<lparr>key = i, position = (StringToNumber a, StringToNumber b), popup = Popup w\<rparr>"
    using assms by (rule Marker_string_coordinates)
  moreover have "\<not> is_StringNumericLiteral ''not-a-number''"
    by (simp add: StringToNumber_NaN_iff [symmetric] StringToNumber_samples)
  ultimately show ?thesis
    using assms by (simp add: Number_def StringToNumber_NaN_iff StringToNumber_samples)
qed

theorem marker_position_is_Number_witness:
  "Get well_A ''LATITUDE'' = Str ''48.21'' \<and> Get well_A ''LONGITUDE'' = Str ''-103.6''
   \<and> Marker well_A 7
       = Inr \<lparr>key = 7, position = (Finite (4821 / 100), Finite (- 1036 / 10)), popup = Popup well_A\<rparr>
   \<and> Get well_B ''LATITUDE'' = Str ''not-a-number'' \<and> \<not> is_StringNumericLiteral ''not-a-number''
   \<and> (\<exists>m. Marker well_B 8 = Inr m \<and> fst (position m) = NaN)"
proof -
  have A: "Get well_A ''LATITUDE'' = Str ''48.21''" "Get well_A ''LONGITUDE'' = Str ''-103.6''"
    by (simp_all add: well_A_def)
  have B: "Get well_B ''LATITUDE'' = Str ''not-a-number''" "Get well_B ''LONGITUDE'' = Str '' ''"
    by (simp_all add: well_B_def)
  obtain m where "Marker well_A 7 = Inr m"
    and "position m = (Finite (4821 / 100), Finite (- 1036 / 10))"
    using marker_position_is_Number [OF A, of 7] by auto
  moreover from this have "m = \<lparr>key = 7, position = (Finite (4821 / 100), Finite (- 1036 / 10)), popup = Popup well_A\<rparr>"
    by (simp add: Marker_well_A)
  moreover have "\<not> is_StringNumericLiteral ''not-a-number'' \<and> (\<exists>m. Marker well_B 8 = Inr m \<and> fst (position m) = NaN)"
    using marker_position_is_Number [OF B, of 8] by auto
  ultimately show ?thesis using A B by simp
qed

text \<open>
  Claim C10. A coordinate string that is empty or holds white space only is read as 0,
  not as \<^verbatim>\<open>NaN\<close>, and the record gets a marker with that coordinate at 0; a record whose
  two coordinates are empty strings is placed at (0, 0).
\<close>

theorem blank_coordinate_is_zero:
  assumes "Get w ''LATITUDE'' = Str a" and "Get w ''LONGITUDE'' = Str b"
  shows "\<exists>m. Marker w i = Inr m
            \<and> (blank a \<longrightarrow> Number (Str a) = Inr (Finite 0) \<and> fst (position m) = Finite 0)
            \<and> (blank b \<longrightarrow> Number (Str b) = Inr (Finite 0) \<and> snd (position m) = Finite 0)
            \<and> (a = [] \<and> b = [] \<longrightarrow> position m = (Finite 0, Finite 0))"
proof -
  have "is_Obj w" using assms(1) by (rule Get_Str_is_Obj)
  then have "Marker w i
      = Inr \<lparr>key = i, position = (StringToNumber a, StringToNumber b), popup = Popup w\<rparr>"
    using assms by (rule Marker_string_coordinates)
  then show ?thesis
    by (simp add: Number_def blank_is_zero StringToNumber_samples)
qed

theorem blank_coordinate_is_zero_witness:
  "blank [] \<and> blank [CHR 0x20, CHR 0x09, CHR 0x0A]
   \<and> Marker (Obj [(''LATITUDE'', Str []), (''LONGITUDE'', Str [])]) 0
       = Inr \<lparr>key = 0, position = (Finite 0, Finite 0),
              popup = Popup (Obj [(''LATITUDE'', Str []), (''LONGITUDE'', Str [])])\<rparr>
   \<and> (\<exists>m. Marker (Obj [(''LONGITUDE'', Str [CHR 0x20, CHR 0x09, CHR 0x0A]), (''LATITUDE'', Str ''48.21'')]) 3 = Inr m
          \<and> snd (position m) = Finite 0)"
proof -
  let ?w = "Obj [(''LATITUDE'', Str []), (''LONGITUDE'', Str [])]"
  let ?v = "Obj [(''LONGITUDE'', Str [CHR 0x20, CHR 0x09, CHR 0x0A]), (''LATITUDE'', Str ''48.21'')]"
  have bl: "blank []" "blank [CHR 0x20, CHR 0x09, CHR 0x0A]"
    by (simp_all add: blank_def StrWhiteSpaceChar_def)
  have w: "Get ?w ''LATITUDE'' = Str []" "Get ?w ''LONGITUDE'' = Str []"
    and v: "Get ?v ''LATITUDE'' = Str ''48.21''" "Get ?v ''LONGITUDE'' = Str [CHR 0x20, CHR 0x09, CHR 0x0A]"
    by simp_all
  obtain m where m: "Marker ?w 0 = Inr m" and "position m = (Finite 0, Finite 0)"
    using blank_coordinate_is_zero [OF w, of 0] by auto
  moreover from m have "key m = 0" and "popup m = Popup ?w"
    by (auto simp: Marker_def split: if_splits sum.splits)
  ultimately have "Marker ?w 0 = Inr \<lparr>key = 0, position = (Finite 0, Finite 0), popup = Popup ?w\<rparr>"
    by simp
  moreover have "\<exists>m. Marker ?v 3 = Inr m \<and> snd (position m) = Finite 0"
    using blank_coordinate_is_zero [OF v, of 3] bl by auto
  ultimately show ?thesis using bl by simp
qed

end
